theory Spec2Isabelle
  imports Main "HOL-Library.Sublist" "HOL-Library.AList" "HOL-Library.Multiset"
begin

section \<open>Python strings\<close>

type_synonym codepoint = nat
type_synonym pystr = "codepoint list"

definition str :: "string \<Rightarrow> pystr" where
  "str s = map of_char s"

definition isspace :: "codepoint \<Rightarrow> bool" where
  "isspace c \<longleftrightarrow>
     (9 \<le> c \<and> c \<le> 13) \<or> (28 \<le> c \<and> c \<le> 32) \<or> c = 133 \<or> c = 160 \<or> c = 5760 \<or>
     (8192 \<le> c \<and> c \<le> 8202) \<or> c = 8232 \<or> c = 8233 \<or> c = 8239 \<or> c = 8287 \<or> c = 12288"

definition quote :: codepoint where
  "quote = 34"

section \<open>Regular expressions\<close>

datatype cls = Space | NotQuote | AnyChar

fun in_cls :: "cls \<Rightarrow> codepoint \<Rightarrow> bool" where
  "in_cls Space c = isspace c"
| "in_cls NotQuote c = (c \<noteq> quote)"
| "in_cls AnyChar c = True"

datatype rx =
    Str pystr
  | Seq rx rx
  | Plus cls
  | LazyStar cls
  | Opt rx
  | Group nat rx

type_synonym caps = "nat \<Rightarrow> pystr option"

fun star_greedy :: "cls \<Rightarrow> pystr \<Rightarrow> (pystr \<Rightarrow> 'r option) \<Rightarrow> 'r option" where
  "star_greedy C [] k = k []"
| "star_greedy C (x # xs) k =
     (if in_cls C x
      then (case star_greedy C xs k of Some r \<Rightarrow> Some r | None \<Rightarrow> k (x # xs))
      else k (x # xs))"

fun star_lazy :: "cls \<Rightarrow> pystr \<Rightarrow> (pystr \<Rightarrow> 'r option) \<Rightarrow> 'r option" where
  "star_lazy C [] k = k []"
| "star_lazy C (x # xs) k =
     (case k (x # xs) of Some r \<Rightarrow> Some r
      | None \<Rightarrow> if in_cls C x then star_lazy C xs k else None)"

fun rx_match :: "rx \<Rightarrow> pystr \<Rightarrow> caps \<Rightarrow> (pystr \<Rightarrow> caps \<Rightarrow> 'r option) \<Rightarrow> 'r option" where
  "rx_match (Str p) s g k = (if prefix p s then k (drop (length p) s) g else None)"
| "rx_match (Seq a b) s g k = rx_match a s g (\<lambda>s' g'. rx_match b s' g' k)"
| "rx_match (Plus C) s g k =
     (case s of [] \<Rightarrow> None
      | x # xs \<Rightarrow> if in_cls C x then star_greedy C xs (\<lambda>s'. k s' g) else None)"
| "rx_match (LazyStar C) s g k = star_lazy C s (\<lambda>s'. k s' g)"
| "rx_match (Opt a) s g k =
     (case rx_match a s g k of Some r \<Rightarrow> Some r | None \<Rightarrow> k s g)"
| "rx_match (Group n a) s g k =
     rx_match a s g (\<lambda>s' g'. k s' (g'(n \<mapsto> take (length s - length s') s)))"

definition attr :: "string \<Rightarrow> nat \<Rightarrow> rx" where
  "attr name n =
     Seq (Plus Space) (Seq (Str (str name @ str ''='' @ [quote]))
       (Seq (Group n (Plus NotQuote)) (Str [quote])))"

definition artifact_pattern :: rx where
  "artifact_pattern =
     Seq (Str (str ''<artifact''))
      (Seq (attr ''type'' 1)
        (Seq (Opt (attr ''language'' 2))
          (Seq (Opt (attr ''title'' 3))
            (Seq (Str (str ''>''))
              (Seq (Group 4 (LazyStar AnyChar)) (Str (str ''</artifact>'')))))))"

definition match_at :: "rx \<Rightarrow> pystr \<Rightarrow> (caps \<times> pystr) option" where
  "match_at r s = rx_match r s (\<lambda>_. None) (\<lambda>s' g. Some (g, s'))"

definition grp :: "caps \<Rightarrow> nat \<Rightarrow> pystr" where
  "grp g n = (case g n of None \<Rightarrow> [] | Some v \<Rightarrow> v)"


lemma star_greedy_suffix:
  "star_greedy C s k = Some res \<Longrightarrow> \<exists>s'. suffix s' s \<and> k s' = Some res"
proof (induction s)
  case Nil
  then show ?case by auto
next
  case (Cons x xs)
  show ?case
  proof (cases "in_cls C x \<and> star_greedy C xs k \<noteq> None")
    case True
    then obtain r where r: "star_greedy C xs k = Some r" by auto
    with Cons.prems True have "r = res" by simp
    with Cons.IH r obtain s' where "suffix s' xs" "k s' = Some res" by auto
    then show ?thesis by (auto intro: suffix_ConsI)
  next
    case False
    with Cons.prems have "k (x # xs) = Some res" by (auto split: if_splits option.splits)
    then show ?thesis by auto
  qed
qed

lemma star_lazy_suffix:
  "star_lazy C s k = Some res \<Longrightarrow> \<exists>s'. suffix s' s \<and> k s' = Some res"
proof (induction s)
  case Nil
  then show ?case by auto
next
  case (Cons x xs)
  show ?case
  proof (cases "k (x # xs)")
    case None
    with Cons.prems have "star_lazy C xs k = Some res" by (auto split: if_splits)
    with Cons.IH obtain s' where "suffix s' xs" "k s' = Some res" by auto
    then show ?thesis by (auto intro: suffix_ConsI)
  next
    case (Some r)
    with Cons.prems show ?thesis by auto
  qed
qed

lemma rx_match_suffix:
  "rx_match r s g k = Some res \<Longrightarrow> \<exists>s' g'. suffix s' s \<and> k s' g' = Some res"
proof (induction r arbitrary: s g k)
  case (Str p)
  then show ?case by (auto split: if_splits intro: suffix_drop)
next
  case (Seq a b)
  from Seq.prems have "rx_match a s g (\<lambda>s' g'. rx_match b s' g' k) = Some res" by simp
  from Seq.IH(1)[OF this] obtain s1 g1 where
    s1: "suffix s1 s" and m: "rx_match b s1 g1 k = Some res" by auto
  from Seq.IH(2)[OF m] obtain s2 g2 where "suffix s2 s1" "k s2 g2 = Some res" by auto
  with s1 show ?case by (meson suffix_order.trans)
next
  case (Plus C)
  then obtain x xs where s: "s = x # xs" and m: "star_greedy C xs (\<lambda>s'. k s' g) = Some res"
    by (auto split: list.splits if_splits)
  from star_greedy_suffix[OF m] obtain s' where "suffix s' xs" "k s' g = Some res" by auto
  with s show ?case by (auto intro: suffix_ConsI)
next
  case (LazyStar C)
  then have "star_lazy C s (\<lambda>s'. k s' g) = Some res" by simp
  from star_lazy_suffix[OF this] show ?case by auto
next
  case (Opt a)
  show ?case
  proof (cases "rx_match a s g k")
    case None
    with Opt.prems have "k s g = Some res" by simp
    then show ?thesis by auto
  next
    case (Some r)
    with Opt.prems have "rx_match a s g k = Some res" by simp
    from Opt.IH[OF this] show ?thesis .
  qed
next
  case (Group n a)
  from Group.prems
  have "rx_match a s g (\<lambda>s' g'. k s' (g'(n \<mapsto> take (length s - length s') s))) = Some res"
    by simp
  from Group.IH[OF this] show ?case by blast
qed

lemma match_at_artifact_shorter:
  assumes "match_at artifact_pattern s = Some (g, rest)"
  shows "length rest < length s"
proof -
  let ?p = "str ''<artifact''"
  obtain R where R: "artifact_pattern = Seq (Str ?p) R"
    by (simp add: artifact_pattern_def)
  from assms have pre: "prefix ?p s"
    and m: "rx_match R (drop (length ?p) s) (\<lambda>_. None) (\<lambda>s' g. Some (g, s')) = Some (g, rest)"
    by (auto simp: match_at_def R split: if_splits)
  from rx_match_suffix[OF m] have "suffix rest (drop (length ?p) s)" by auto
  then have "length rest \<le> length s - length ?p" by (auto dest: suffix_length_le)
  moreover from pre have "length ?p \<le> length s" by (rule prefix_length_le)
  moreover have "0 < length ?p" by (simp add: str_def)
  ultimately show ?thesis by linarith
qed

type_synonym groups = "pystr \<times> pystr \<times> pystr \<times> pystr"

definition groups_of :: "caps \<Rightarrow> groups" where
  "groups_of g = (grp g 1, grp g 2, grp g 3, grp g 4)"

function findall :: "pystr \<Rightarrow> groups list" where
  "findall s =
     (case match_at artifact_pattern s of
        Some (g, rest) \<Rightarrow> groups_of g # findall rest
      | None \<Rightarrow> (case s of [] \<Rightarrow> [] | _ # xs \<Rightarrow> findall xs))"
  by pat_completeness auto
termination
  by (relation "measure length") (auto dest: match_at_artifact_shorter)

function sub :: "pystr \<Rightarrow> pystr \<Rightarrow> pystr" where
  "sub repl s =
     (case match_at artifact_pattern s of
        Some (g, rest) \<Rightarrow> repl @ sub repl rest
      | None \<Rightarrow> (case s of [] \<Rightarrow> [] | x # xs \<Rightarrow> x # sub repl xs))"
  by pat_completeness auto
termination
  by (relation "measure (\<lambda>(r, s). length s)") (auto dest: match_at_artifact_shorter)

declare findall.simps [simp del] sub.simps [simp del]


section \<open>Environment: clock, identifiers and the dictionary heap\<close>

text \<open>
  Readings of the clock and fresh identifiers come from the outside; they are streams
  the program consumes. Two things the program computes in a way that is not modelled
  are taken from the environment as well: the millisecond duration
  \<open>int((end_time - start_time) * 1000)\<close>, which is floating-point arithmetic, and the
  text of the \<open>TypeError\<close> that \<open>re.findall\<close> raises on a value that is not a string,
  which depends on the interpreter.
\<close>

type_synonym timestamp = int
type_synonym addr = nat

datatype pyval = PNone | PBool bool | PInt int | PStr pystr

type_synonym pydict = "(pystr \<times> pyval) list"

datatype isotext = Isoformat timestamp

record world =
  clock :: "nat \<Rightarrow> timestamp"
  uuids :: "nat \<Rightarrow> pystr"
  heap :: "addr \<Rightarrow> pydict"
  next_addr :: addr
  elapsed_ms :: "timestamp \<Rightarrow> timestamp \<Rightarrow> int"
  re_type_error_text :: pystr

definition now :: "world \<Rightarrow> timestamp \<times> world" where
  "now w = (clock w 0, w\<lparr>clock := (\<lambda>n. clock w (Suc n))\<rparr>)"

definition uuid4 :: "world \<Rightarrow> pystr \<times> world" where
  "uuid4 w = (uuids w 0, w\<lparr>uuids := (\<lambda>n. uuids w (Suc n))\<rparr>)"

definition new_dict :: "pydict \<Rightarrow> world \<Rightarrow> addr \<times> world" where
  "new_dict d w =
     (next_addr w, w\<lparr>heap := (heap w)(next_addr w := d), next_addr := Suc (next_addr w)\<rparr>)"

definition dict_update :: "pydict \<Rightarrow> pydict \<Rightarrow> pydict" where
  "dict_update d m = fold (\<lambda>(k, v). AList.update k v) m d"

section \<open>Steps, artifacts and responses (agents/base\_agent.py)\<close>

datatype StepType = THOUGHT | ACTION | OBSERVATION | FINAL_ANSWER | ERROR

record ExecutionStep =
  step_id :: pystr
  step_type :: StepType
  step_content :: pystr
  tool_name :: "pystr option"
  tool_input :: "pydict option"
  tool_output :: "pyval option"
  step_timestamp :: timestamp
  duration_ms :: "int option"

record Artifact =
  art_id :: pystr
  art_type :: pystr
  art_title :: pystr
  art_content :: pystr
  art_language :: "pystr option"
  art_metadata :: addr
  art_created_at :: timestamp

record AgentResponse =
  session_id :: pystr
  success :: bool
  message :: pystr
  steps :: "ExecutionStep list"
  resp_artifacts :: "Artifact list"
  total_duration_ms :: int
  iteration_count :: nat

record agent =
  current_session_id :: "pystr option"
  execution_steps :: "ExecutionStep list"
  artifacts :: "Artifact list"

datatype exn = Exception pystr

fun exn_str :: "exn \<Rightarrow> pystr" where
  "exn_str (Exception t) = t"

definition new_step :: "StepType \<Rightarrow> pystr \<Rightarrow> world \<Rightarrow> ExecutionStep \<times> world" where
  "new_step ty c w =
     (let (i, w1) = uuid4 w; (t, w2) = now w1
      in (\<lparr>step_id = i, step_type = ty, step_content = c, tool_name = None,
           tool_input = None, tool_output = None, step_timestamp = t, duration_ms = None\<rparr>, w2))"

definition new_artifact ::
    "pystr \<Rightarrow> pystr \<Rightarrow> pystr \<Rightarrow> pystr option \<Rightarrow> world \<Rightarrow> Artifact \<times> world" where
  "new_artifact ty ti c l w =
     (let (i, w1) = uuid4 w; (m, w2) = new_dict [] w1; (t, w3) = now w2
      in (\<lparr>art_id = i, art_type = ty, art_title = ti, art_content = c, art_language = l,
           art_metadata = m, art_created_at = t\<rparr>, w3))"

function show_nat :: "nat \<Rightarrow> pystr" where
  "show_nat n = (if n < 10 then [48 + n] else show_nat (n div 10) @ [48 + n mod 10])"
  by pat_completeness auto
termination
  by (relation "measure id") auto

declare show_nat.simps [simp del]

definition strip :: "pystr \<Rightarrow> pystr" where
  "strip s = rev (dropWhile isspace (rev (dropWhile isspace s)))"

definition placeholder :: pystr where
  "placeholder = str ''[Artifact created]''"

definition artifact_of_match :: "groups \<Rightarrow> nat \<Rightarrow> world \<Rightarrow> Artifact \<times> world" where
  "artifact_of_match m n w =
     (case m of (artifact_type, language, title, content) \<Rightarrow>
        new_artifact artifact_type
          (if title \<noteq> [] then title else str ''Artifact '' @ show_nat (n + 1))
          (strip content)
          (if language \<noteq> [] then Some language else None) w)"

fun extract_loop :: "groups list \<Rightarrow> agent \<times> world \<Rightarrow> agent \<times> world" where
  "extract_loop [] (ag, w) = (ag, w)"
| "extract_loop (m # ms) (ag, w) =
     (let (a, w') = artifact_of_match m (length (artifacts ag)) w
      in extract_loop ms (ag\<lparr>artifacts := artifacts ag @ [a]\<rparr>, w'))"

definition process_response ::
    "pystr option \<Rightarrow> agent \<times> world \<Rightarrow> (exn + pystr) \<times> agent \<times> world" where
  "process_response response st =
     (case response of
        None \<Rightarrow> (Inl (Exception (re_type_error_text (snd st))), st)
      | Some r \<Rightarrow> (Inr (sub placeholder r), extract_loop (findall r) st))"

text \<open>
  The delegated model call \<open>self.agent.run(user_message)\<close> is external. What the model
  takes from it is what it does to the agent and how it ends: the steps recorded on the
  agent's step buffer while it runs (tool invocations), the artifacts added through
  \<open>add_artifact\<close>, and either an exception or a response whose content is a string or
  \<open>None\<close>.
\<close>

datatype run_result = Raises exn | Returns "pystr option"

record delegated =
  recorded_steps :: "ExecutionStep list"
  recorded_artifacts :: "Artifact list"
  outcome :: run_result

definition append_step :: "StepType \<Rightarrow> pystr \<Rightarrow> agent \<times> world \<Rightarrow> agent \<times> world" where
  "append_step ty c st =
     (case st of (ag, w) \<Rightarrow>
        let (s, w') = new_step ty c w
        in (ag\<lparr>execution_steps := execution_steps ag @ [s]\<rparr>, w'))"

definition agent_run :: "delegated \<Rightarrow> agent \<times> world \<Rightarrow> run_result \<times> agent \<times> world" where
  "agent_run run st =
     (case st of (ag, w) \<Rightarrow>
        (outcome run,
         ag\<lparr>execution_steps := execution_steps ag @ recorded_steps run,
            artifacts := artifacts ag @ recorded_artifacts run\<rparr>, w))"

definition run_react_loop ::
    "pystr \<Rightarrow> delegated \<Rightarrow> agent \<times> world \<Rightarrow> (exn + pystr) \<times> agent \<times> world" where
  "run_react_loop user_message run st =
     (let st1 = append_step THOUGHT (str ''Analyzing request: '' @ user_message) st
      in case agent_run run st1 of
           (Raises e, st2) \<Rightarrow> (Inl e, st2)
         | (Returns content, st2) \<Rightarrow>
             (case process_response content st2 of
                (Inl e, st3) \<Rightarrow> (Inl e, st3)
              | (Inr final_message, st3) \<Rightarrow>
                  (Inr final_message, append_step FINAL_ANSWER final_message st3)))"

definition count_actions :: "ExecutionStep list \<Rightarrow> nat" where
  "count_actions ss = length (filter (\<lambda>s. step_type s = ACTION) ss)"

definition resolve_session_id :: "pystr option \<Rightarrow> world \<Rightarrow> pystr \<times> world" where
  "resolve_session_id sid w =
     (case sid of
        None \<Rightarrow> uuid4 w
      | Some s \<Rightarrow> if s \<noteq> [] then (s, w) else uuid4 w)"

definition execute ::
    "pystr \<Rightarrow> pystr option \<Rightarrow> delegated \<Rightarrow> agent \<times> world \<Rightarrow> AgentResponse \<times> agent \<times> world" where
  "execute user_message sid run st =
     (case st of (ag, w) \<Rightarrow>
      let (start_time, w1) = now w;
          (cur, w2) = resolve_session_id sid w1;
          ag1 = ag\<lparr>current_session_id := Some cur, execution_steps := [], artifacts := []\<rparr>
      in case run_react_loop user_message run (ag1, w2) of
           (Inr response, ag2, w3) \<Rightarrow>
             (let (end_time, w4) = now w3
              in (\<lparr>session_id = cur, success = True, message = response,
                   steps = execution_steps ag2, resp_artifacts = artifacts ag2,
                   total_duration_ms = elapsed_ms w4 start_time end_time,
                   iteration_count = count_actions (execution_steps ag2)\<rparr>, ag2, w4))
         | (Inl e, ag2, w3) \<Rightarrow>
             (let (end_time, w4) = now w3;
                  (ag3, w5) = append_step ERROR (exn_str e) (ag2, w4)
              in (\<lparr>session_id = cur, success = False,
                   message = str ''Error during execution: '' @ exn_str e,
                   steps = execution_steps ag3, resp_artifacts = artifacts ag3,
                   total_duration_ms = elapsed_ms w4 start_time end_time,
                   iteration_count = count_actions (execution_steps ag3)\<rparr>, ag3, w5)))"

section \<open>The artifact store (artifacts/artifact\_manager.py)\<close>

record ArtifactData =
  data_id :: pystr
  data_type :: pystr
  data_title :: pystr
  data_content :: pystr
  data_language :: "pystr option"
  data_session_id :: "pystr option"
  data_metadata :: addr
  data_created_at :: timestamp
  data_updated_at :: timestamp

text \<open>The dictionary \<open>ArtifactData.to_dict\<close> builds; \<open>metadata\<close> is the same dictionary object.\<close>

record data_dict =
  dd_id :: pystr
  dd_type :: pystr
  dd_title :: pystr
  dd_content :: pystr
  dd_language :: "pystr option"
  dd_session_id :: "pystr option"
  dd_metadata :: addr
  dd_created_at :: isotext
  dd_updated_at :: isotext

definition data_to_dict :: "ArtifactData \<Rightarrow> data_dict" where
  "data_to_dict a =
     \<lparr>dd_id = data_id a, dd_type = data_type a, dd_title = data_title a,
      dd_content = data_content a, dd_language = data_language a,
      dd_session_id = data_session_id a, dd_metadata = data_metadata a,
      dd_created_at = Isoformat (data_created_at a),
      dd_updated_at = Isoformat (data_updated_at a)\<rparr>"

text \<open>
  \<open>ArtifactManager.artifacts\<close> is a Python dictionary: an association list in insertion
  order, where assigning to a key that is present keeps the key's position.
\<close>

record ArtifactManager =
  storage_dir :: pystr
  mgr_artifacts :: "(pystr \<times> ArtifactData) list"

definition create ::
    "pystr \<Rightarrow> pystr \<Rightarrow> pystr \<Rightarrow> pystr option \<Rightarrow> pystr option \<Rightarrow> addr option
      \<Rightarrow> ArtifactManager \<times> world \<Rightarrow> ArtifactData \<times> ArtifactManager \<times> world" where
  "create artifact_type title content language sid metadata st =
     (case st of (mgr, w) \<Rightarrow>
      let (m, w1) = (case metadata of
                       None \<Rightarrow> new_dict [] w
                     | Some p \<Rightarrow> if heap w p \<noteq> [] then (p, w) else new_dict [] w);
          (i, w2) = uuid4 w1;
          (c, w3) = now w2;
          (u, w4) = now w3;
          artifact = \<lparr>data_id = i, data_type = artifact_type, data_title = title,
                       data_content = content, data_language = language,
                       data_session_id = sid, data_metadata = m,
                       data_created_at = c, data_updated_at = u\<rparr>
      in (artifact,
          mgr\<lparr>mgr_artifacts := AList.update i artifact (mgr_artifacts mgr)\<rparr>, w4))"

definition get :: "pystr \<Rightarrow> ArtifactManager \<Rightarrow> ArtifactData option" where
  "get artifact_id mgr = map_of (mgr_artifacts mgr) artifact_id"

definition update ::
    "pystr \<Rightarrow> pystr option \<Rightarrow> pystr option \<Rightarrow> pydict option
      \<Rightarrow> ArtifactManager \<times> world \<Rightarrow> ArtifactData option \<times> ArtifactManager \<times> world" where
  "update artifact_id content title metadata st =
     (case st of (mgr, w) \<Rightarrow>
      case map_of (mgr_artifacts mgr) artifact_id of
        None \<Rightarrow> (None, mgr, w)
      | Some artifact \<Rightarrow>
          let a1 = (case content of None \<Rightarrow> artifact
                    | Some c \<Rightarrow> artifact\<lparr>data_content := c\<rparr>);
              a2 = (case title of None \<Rightarrow> a1 | Some t \<Rightarrow> a1\<lparr>data_title := t\<rparr>);
              w1 = (case metadata of None \<Rightarrow> w
                    | Some m \<Rightarrow>
                        w\<lparr>heap := (heap w)(data_metadata a2 :=
                                      dict_update (heap w (data_metadata a2)) m)\<rparr>);
              (t, w2) = now w1;
              a3 = a2\<lparr>data_updated_at := t\<rparr>
          in (Some a3,
              mgr\<lparr>mgr_artifacts := AList.update artifact_id a3 (mgr_artifacts mgr)\<rparr>, w2))"

definition sorted_reverse :: "('a \<Rightarrow> timestamp) \<Rightarrow> 'a list \<Rightarrow> 'a list" where
  "sorted_reverse key xs = rev (sort_key key (rev xs))"

definition list_all_artifacts :: "pystr option \<Rightarrow> ArtifactManager \<Rightarrow> ArtifactData list" where
  "list_all_artifacts sid mgr =
     (let artifacts = map snd (mgr_artifacts mgr);
          artifacts' = (case sid of
                          None \<Rightarrow> artifacts
                        | Some s \<Rightarrow>
                            if s \<noteq> [] then filter (\<lambda>a. data_session_id a = Some s) artifacts
                            else artifacts)
      in sorted_reverse data_created_at artifacts')"

datatype export_value =
    EStr pystr
  | EInt nat
  | EArtifacts "data_dict list"
  | ETime isotext

definition export_session ::
    "pystr \<Rightarrow> ArtifactManager \<times> world \<Rightarrow> (pystr \<times> export_value) list \<times> world" where
  "export_session sid st =
     (case st of (mgr, w) \<Rightarrow>
      let artifacts = list_all_artifacts (Some sid) mgr;
          (t, w1) = now w
      in ([(str ''session_id'', EStr sid),
           (str ''artifact_count'', EInt (length artifacts)),
           (str ''artifacts'', EArtifacts (map data_to_dict artifacts)),
           (str ''exported_at'', ETime (Isoformat t))], w1))"

section \<open>Dictionaries of steps and artifacts (\<open>to_dict\<close>)\<close>

fun step_type_value :: "StepType \<Rightarrow> pystr" where
  "step_type_value THOUGHT = str ''thought''"
| "step_type_value ACTION = str ''action''"
| "step_type_value OBSERVATION = str ''observation''"
| "step_type_value FINAL_ANSWER = str ''final_answer''"
| "step_type_value ERROR = str ''error''"

fun truthy :: "pyval \<Rightarrow> bool" where
  "truthy PNone = False"
| "truthy (PBool b) = b"
| "truthy (PInt i) = (i \<noteq> 0)"
| "truthy (PStr s) = (s \<noteq> [])"

fun py_str :: "pyval \<Rightarrow> pystr" where
  "py_str PNone = str ''None''"
| "py_str (PBool b) = (if b then str ''True'' else str ''False'')"
| "py_str (PInt i) = (if i < 0 then 45 # show_nat (nat (- i)) else show_nat (nat i))"
| "py_str (PStr s) = s"

record step_dict =
  sd_id :: pystr
  sd_type :: pystr
  sd_content :: pystr
  sd_tool_name :: "pystr option"
  sd_tool_input :: "pydict option"
  sd_tool_output :: "pystr option"
  sd_timestamp :: isotext
  sd_duration_ms :: "int option"

definition step_to_dict :: "ExecutionStep \<Rightarrow> step_dict" where
  "step_to_dict s =
     \<lparr>sd_id = step_id s, sd_type = step_type_value (step_type s), sd_content = step_content s,
      sd_tool_name = tool_name s, sd_tool_input = tool_input s,
      sd_tool_output = (case tool_output s of
                          None \<Rightarrow> None
                        | Some v \<Rightarrow> if truthy v then Some (py_str v) else None),
      sd_timestamp = Isoformat (step_timestamp s), sd_duration_ms = duration_ms s\<rparr>"

text \<open>
  \<open>Artifact.to_dict\<close> builds a new dictionary from the artifact's fields. The strings are
  immutable values; the entry \<open>metadata\<close> is the artifact's own dictionary object, the
  same address.
\<close>

record artifact_dict =
  dict_id :: pystr
  dict_type :: pystr
  dict_title :: pystr
  dict_content :: pystr
  dict_language :: "pystr option"
  dict_metadata :: addr
  dict_created_at :: isotext

definition to_dict :: "Artifact \<Rightarrow> artifact_dict" where
  "to_dict a =
     \<lparr>dict_id = art_id a, dict_type = art_type a, dict_title = art_title a,
      dict_content = art_content a, dict_language = art_language a,
      dict_metadata = art_metadata a, dict_created_at = Isoformat (art_created_at a)\<rparr>"

section \<open>The streaming adapter (\<open>BaseAgent.stream_execute\<close>)\<close>

datatype event =
    StartEv pystr isotext
  | StepEv step_dict
  | TokenEv pystr
  | ArtifactEv artifact_dict
  | CompleteEv pystr bool int
  | ErrorEv pystr

text \<open>
  The streamed model call is external as well. Iterating it, the program sees a chunk
  (with a content, or with none), or the run records a step or adds an artifact on the
  agent, or the run raises. \<open>_stream_agent_response\<close> passes on the contents that are
  present and not empty.
\<close>

datatype stream_item =
    Chunk "pystr option"
  | RecordsStep ExecutionStep
  | AddsArtifact Artifact
  | StreamRaises exn

fun stream_loop ::
    "stream_item list \<Rightarrow> pystr \<Rightarrow> agent \<Rightarrow> event list \<Rightarrow> (exn + pystr) \<times> agent \<times> event list" where
  "stream_loop [] response_content ag evs = (Inr response_content, ag, evs)"
| "stream_loop (Chunk c # xs) response_content ag evs =
     (case c of
        None \<Rightarrow> stream_loop xs response_content ag evs
      | Some chunk \<Rightarrow>
          if chunk \<noteq> []
          then stream_loop xs (response_content @ chunk) ag (evs @ [TokenEv chunk])
          else stream_loop xs response_content ag evs)"
| "stream_loop (RecordsStep s # xs) response_content ag evs =
     stream_loop xs response_content (ag\<lparr>execution_steps := execution_steps ag @ [s]\<rparr>) evs"
| "stream_loop (AddsArtifact a # xs) response_content ag evs =
     stream_loop xs response_content (ag\<lparr>artifacts := artifacts ag @ [a]\<rparr>) evs"
| "stream_loop (StreamRaises e # xs) response_content ag evs = (Inl e, ag, evs)"

definition stream_execute ::
    "pystr \<Rightarrow> pystr option \<Rightarrow> stream_item list \<Rightarrow> agent \<times> world
      \<Rightarrow> event list \<times> agent \<times> world" where
  "stream_execute user_message sid stream st =
     (case st of (ag, w) \<Rightarrow>
      let (start_time, w1) = now w;
          (cur, w2) = resolve_session_id sid w1;
          ag1 = ag\<lparr>current_session_id := Some cur, execution_steps := [], artifacts := []\<rparr>;
          (t, w3) = now w2;
          (thought_step, w4) =
             new_step THOUGHT (str ''Analyzing request: '' @ user_message) w3;
          ag2 = ag1\<lparr>execution_steps := execution_steps ag1 @ [thought_step]\<rparr>;
          evs = [StartEv cur (Isoformat t), StepEv (step_to_dict thought_step)]
      in case stream_loop stream [] ag2 evs of
           (Inl e, ag3, evs1) \<Rightarrow> (evs1 @ [ErrorEv (exn_str e)], ag3, w4)
         | (Inr response_content, ag3, evs1) \<Rightarrow>
             (case process_response (Some response_content) (ag3, w4) of
                (Inl e, ag4, w5) \<Rightarrow> (evs1 @ [ErrorEv (exn_str e)], ag4, w5)
              | (Inr final_message, ag4, w5) \<Rightarrow>
                  let evs2 = evs1 @ map (\<lambda>a. ArtifactEv (to_dict a)) (artifacts ag4);
                      (final_step, w6) = new_step FINAL_ANSWER final_message w5;
                      ag5 = ag4\<lparr>execution_steps := execution_steps ag4 @ [final_step]\<rparr>;
                      (end_time, w7) = now w6
                  in (evs2 @ [StepEv (step_to_dict final_step),
                              CompleteEv cur True (elapsed_ms w7 start_time end_time)],
                      ag5, w7)))"

section \<open>Sessions and the chat endpoint (api/routes.py)\<close>

record message_entry =
  role :: pystr
  msg_content :: pystr
  msg_timestamp :: isotext

record session =
  sess_id :: pystr
  sess_created_at :: isotext
  messages :: "message_entry list"
  sess_artifacts :: "artifact_dict list"
  last_activity :: "isotext option"

record ChatMessage =
  chat_content :: pystr
  msg_session_id :: "pystr option"
  msg_context :: "pydict option"

record ChatResponse =
  cr_session_id :: pystr
  cr_message :: pystr
  cr_success :: bool
  cr_artifacts :: "artifact_dict list"
  cr_steps :: "step_dict list"
  cr_duration_ms :: int

record app =
  sessions :: "pystr \<Rightarrow> session option"
  shared_agent :: agent
  env :: world

text \<open>
  \<open>on_session\<close> is a change in place of \<open>sessions[session_id]\<close>. In \<open>chat\<close> the key is
  present at every use, since the session is initialised first.
\<close>

definition on_session ::
    "pystr \<Rightarrow> (session \<Rightarrow> session) \<Rightarrow> (pystr \<Rightarrow> session option) \<Rightarrow> (pystr \<Rightarrow> session option)" where
  "on_session sid f ss = (case ss sid of None \<Rightarrow> ss | Some s \<Rightarrow> ss(sid \<mapsto> f s))"

definition init_session ::
    "pystr \<Rightarrow> (pystr \<Rightarrow> session option) \<times> world \<Rightarrow> (pystr \<Rightarrow> session option) \<times> world" where
  "init_session sid st =
     (case st of (ss, w) \<Rightarrow>
        case ss sid of
          Some s \<Rightarrow> (ss, w)
        | None \<Rightarrow>
            let (t, w') = now w
            in (ss(sid \<mapsto> \<lparr>sess_id = sid, sess_created_at = Isoformat t, messages = [],
                            sess_artifacts = [], last_activity = None\<rparr>), w'))"

definition add_message ::
    "pystr \<Rightarrow> pystr \<Rightarrow> pystr \<Rightarrow> (pystr \<Rightarrow> session option) \<times> world
      \<Rightarrow> (pystr \<Rightarrow> session option) \<times> world" where
  "add_message sid r c st =
     (case st of (ss, w) \<Rightarrow>
        let (t, w') = now w
        in (on_session sid
              (\<lambda>s. s\<lparr>messages := messages s
                         @ [\<lparr>role = r, msg_content = c, msg_timestamp = Isoformat t\<rparr>]\<rparr>) ss,
            w'))"

definition store_artifacts ::
    "pystr \<Rightarrow> Artifact list \<Rightarrow> (pystr \<Rightarrow> session option) \<Rightarrow> (pystr \<Rightarrow> session option)" where
  "store_artifacts sid arts ss =
     fold (\<lambda>artifact. on_session sid
             (\<lambda>s. s\<lparr>sess_artifacts := sess_artifacts s @ [to_dict artifact]\<rparr>)) arts ss"

definition chat :: "ChatMessage \<Rightarrow> delegated \<Rightarrow> app \<Rightarrow> ChatResponse \<times> app" where
  "chat msg run a =
     (let (sid, w1) = resolve_session_id (msg_session_id msg) (env a);
          (ss1, w2) = init_session sid (sessions a, w1);
          (ss2, w3) = add_message sid (str ''user'') (chat_content msg) (ss1, w2);
          (response, ag, w4) = execute (chat_content msg) (Some sid) run (shared_agent a, w3);
          (ss3, w5) = add_message sid (str ''assistant'') (message response) (ss2, w4);
          ss4 = store_artifacts sid (resp_artifacts response) ss3;
          (t, w6) = now w5;
          ss5 = on_session sid (\<lambda>s. s\<lparr>last_activity := Some (Isoformat t)\<rparr>) ss4
      in (\<lparr>cr_session_id = sid, cr_message = message response, cr_success = success response,
           cr_artifacts = map to_dict (resp_artifacts response),
           cr_steps = map step_to_dict (steps response),
           cr_duration_ms = total_duration_ms response\<rparr>,
          a\<lparr>sessions := ss5, shared_agent := ag, env := w6\<rparr>))"

text \<open>
  The request model \<open>ChatMessage\<close> declares \<open>content\<close> with \<open>min_length=1\<close> and
  \<open>max_length=10000\<close>. The framework validates the body against the model before it
  calls the handler, and answers a body that fails with a validation error.
\<close>

datatype http_error = RequestValidationError

definition content_min_length :: nat where
  "content_min_length = 1"

definition content_max_length :: nat where
  "content_max_length = 10000"

definition validate_chat_message :: "ChatMessage \<Rightarrow> http_error + ChatMessage" where
  "validate_chat_message body =
     (if length (chat_content body) < content_min_length then Inl RequestValidationError
      else if content_max_length < length (chat_content body) then Inl RequestValidationError
      else Inr body)"

definition post_chat :: "ChatMessage \<Rightarrow> delegated \<Rightarrow> app \<Rightarrow> (http_error + ChatResponse) \<times> app" where
  "post_chat body run a =
     (case validate_chat_message body of
        Inl e \<Rightarrow> (Inl e, a)
      | Inr msg \<Rightarrow> (let (r, a') = chat msg run a in (Inr r, a')))"




text \<open>
  What one streamed run amounts to: the chunk contents passed on before the first raise,
  in order, the exception of the first raise if there is one, and the artifacts the run
  added before it.
\<close>

fun yielded :: "stream_item list \<Rightarrow> pystr list" where
  "yielded [] = []"
| "yielded (Chunk (Some c) # xs) = (if c \<noteq> [] then c # yielded xs else yielded xs)"
| "yielded (Chunk None # xs) = yielded xs"
| "yielded (RecordsStep s # xs) = yielded xs"
| "yielded (AddsArtifact a # xs) = yielded xs"
| "yielded (StreamRaises e # xs) = []"

fun stream_error :: "stream_item list \<Rightarrow> exn option" where
  "stream_error [] = None"
| "stream_error (StreamRaises e # xs) = Some e"
| "stream_error (x # xs) = stream_error xs"

fun added_artifacts :: "stream_item list \<Rightarrow> Artifact list" where
  "added_artifacts [] = []"
| "added_artifacts (AddsArtifact a # xs) = a # added_artifacts xs"
| "added_artifacts (StreamRaises e # xs) = []"
| "added_artifacts (x # xs) = added_artifacts xs"

fun is_token :: "event \<Rightarrow> bool" where
  "is_token (TokenEv c) = True"
| "is_token e = False"

fun is_artifact :: "event \<Rightarrow> bool" where
  "is_artifact (ArtifactEv d) = True"
| "is_artifact e = False"

fun is_final :: "event \<Rightarrow> bool" where
  "is_final (StepEv d) = (sd_type d = step_type_value FINAL_ANSWER)"
| "is_final (CompleteEv s b n) = True"
| "is_final e = False"

fun is_error :: "event \<Rightarrow> bool" where
  "is_error (ErrorEv m) = True"
| "is_error e = False"

definition precede :: "(event \<Rightarrow> bool) \<Rightarrow> (event \<Rightarrow> bool) \<Rightarrow> event list \<Rightarrow> bool" where
  "precede P Q evs \<longleftrightarrow>
     (\<forall>i < length evs. \<forall>j < length evs. P (evs ! i) \<and> Q (evs ! j) \<longrightarrow> i < j)"

(*DEFS_END*)

section \<open>Example environment\<close>

definition w0 :: world where
  "w0 = \<lparr>clock = (\<lambda>n. int n * 1000), uuids = (\<lambda>n. str ''id-'' @ show_nat n),
          heap = (\<lambda>_. []), next_addr = 0,
          elapsed_ms = (\<lambda>start_time end_time. (end_time - start_time) div 1000),
          re_type_error_text = str ''expected string or bytes-like object''\<rparr>"

definition ag0 :: agent where
  "ag0 = \<lparr>current_session_id = None, execution_steps = [], artifacts = []\<rparr>"

definition tool_step :: "StepType \<Rightarrow> ExecutionStep" where
  "tool_step ty = \<lparr>step_id = str ''s'', step_type = ty, step_content = str ''search'',
      tool_name = Some (str ''web_search''), tool_input = None, tool_output = None,
      step_timestamp = 5, duration_ms = None\<rparr>"

definition run_boom :: delegated where
  "run_boom = \<lparr>recorded_steps = [tool_step ACTION, tool_step OBSERVATION],
      recorded_artifacts = [], outcome = Raises (Exception (str ''boom''))\<rparr>"

definition run_tools :: delegated where
  "run_tools = \<lparr>recorded_steps = [tool_step ACTION, tool_step OBSERVATION, tool_step ACTION],
      recorded_artifacts = [], outcome = Returns (Some (str ''done''))\<rparr>"

definition art1 :: ArtifactData where
  "art1 = \<lparr>data_id = str ''a1'', data_type = str ''code'', data_title = str ''first'',
            data_content = str ''c1'', data_language = None,
            data_session_id = Some (str ''s1''), data_metadata = 0,
            data_created_at = 10, data_updated_at = 10\<rparr>"

definition art2 :: ArtifactData where
  "art2 = \<lparr>data_id = str ''a2'', data_type = str ''text'', data_title = str ''second'',
            data_content = str ''c2'', data_language = None,
            data_session_id = Some (str ''s2''), data_metadata = 1,
            data_created_at = 20, data_updated_at = 20\<rparr>"

definition art3 :: ArtifactData where
  "art3 = \<lparr>data_id = str ''a3'', data_type = str ''text'', data_title = str ''third'',
            data_content = str ''c3'', data_language = None,
            data_session_id = Some (str ''s1''), data_metadata = 2,
            data_created_at = 30, data_updated_at = 30\<rparr>"

definition mgr1 :: ArtifactManager where
  "mgr1 = \<lparr>storage_dir = str ''artifacts'',
            mgr_artifacts = [(str ''a1'', art1), (str ''a2'', art2), (str ''a3'', art3)]\<rparr>"

definition w1 :: world where
  "w1 = w0\<lparr>heap := (\<lambda>_. [])(0 := [(str ''k0'', PInt 1)]), next_addr := 3\<rparr>"

definition app0 :: app where
  "app0 = \<lparr>sessions = (\<lambda>_. None), shared_agent = ag0, env = w0\<rparr>"

definition run_done :: delegated where
  "run_done = \<lparr>recorded_steps = [], recorded_artifacts = [],
      outcome = Returns (Some (str ''done''))\<rparr>"

definition msg_hi :: ChatMessage where
  "msg_hi = \<lparr>chat_content = str ''hi'', msg_session_id = Some (str ''s1''), msg_context = None\<rparr>"


definition stream1 :: "stream_item list" where
  \<open>stream1 = [Chunk (Some (str ''<artifact type="a"'')), Chunk None, Chunk (Some []),
              RecordsStep (tool_step ACTION), Chunk (Some (str ''>b</artifact>''))]\<close>

(*THMS*)

section \<open>The execution loop\<close>

lemma new_step_fields:
  "step_type (fst (new_step ty c w)) = ty" "step_content (fst (new_step ty c w)) = c"
  by (simp_all add: new_step_def Let_def split: prod.splits)

lemma extract_loop_steps:
  "execution_steps (fst (extract_loop ms st)) = execution_steps (fst st)"
  by (induction ms st rule: extract_loop.induct) (auto simp: Let_def split: prod.splits)

lemma extract_loop_steps_eq:
  "extract_loop ms st = (a, b) \<Longrightarrow> execution_steps a = execution_steps (fst st)"
  using extract_loop_steps [of ms st] by simp

text \<open>
  C9. The \<open>iteration_count\<close> of the response returned by \<open>execute\<close> is the number of
  ACTION steps in the response's step list, on the success path and on the error path
  alike. The only ACTION steps of a turn are those the delegated run recorded, so the
  count is also the number of ACTION steps among them.
\<close>

theorem execute_iteration_count:
  "iteration_count (fst (execute user_message sid run st)) =
     length (filter (\<lambda>s. step_type s = ACTION) (steps (fst (execute user_message sid run st))))
   \<and> iteration_count (fst (execute user_message sid run st)) =
     length (filter (\<lambda>s. step_type s = ACTION) (recorded_steps run))"
proof
  show "iteration_count (fst (execute user_message sid run st)) =
     length (filter (\<lambda>s. step_type s = ACTION) (steps (fst (execute user_message sid run st))))"
    by (simp add: execute_def count_actions_def Let_def split: prod.splits sum.splits)
  show "iteration_count (fst (execute user_message sid run st)) =
     length (filter (\<lambda>s. step_type s = ACTION) (recorded_steps run))"
    by (auto simp: execute_def count_actions_def run_react_loop_def agent_run_def
        process_response_def append_step_def new_step_def Let_def
        dest!: extract_loop_steps_eq
        split: prod.splits sum.splits run_result.splits option.splits)
qed

theorem execute_iteration_count_witness:
  "iteration_count (fst (execute (str ''hi'') None run_tools (ag0, w0))) = 2"
  using execute_iteration_count [of "str ''hi''" None run_tools "(ag0, w0)"]
  by (simp add: run_tools_def tool_step_def)

text \<open>
  C3. When the delegated model call raises \<open>e\<close>, or extraction raises (the model's
  content is \<open>None\<close> and \<open>re.findall\<close> raises its type error), \<open>execute\<close> still returns
  a response: \<open>success\<close> is false, the message is the error text behind the fixed
  prefix \<open>Error during execution: \<close>, and the step list is the THOUGHT step, the steps
  the run recorded, and last an ERROR step whose content is the error text.
\<close>

theorem execute_catches_errors:
  assumes "outcome run = Raises e \<or>
           (outcome run = Returns None \<and> e = Exception (re_type_error_text (snd st)))"
  shows "success (fst (execute user_message sid run st)) = False
       \<and> message (fst (execute user_message sid run st))
           = str ''Error during execution: '' @ exn_str e
       \<and> map step_type (steps (fst (execute user_message sid run st)))
           = THOUGHT # map step_type (recorded_steps run) @ [ERROR]
       \<and> step_content (last (steps (fst (execute user_message sid run st)))) = exn_str e
       \<and> execution_steps (fst (snd (execute user_message sid run st)))
           = steps (fst (execute user_message sid run st))"
  using assms
  by (auto simp: execute_def run_react_loop_def process_response_def append_step_def
        agent_run_def now_def uuid4_def resolve_session_id_def
        new_step_def count_actions_def Let_def split: prod.splits sum.splits option.splits)

theorem execute_catches_errors_witness:
  "success (fst (execute (str ''hi'') None run_boom (ag0, w0))) = False
   \<and> message (fst (execute (str ''hi'') None run_boom (ag0, w0)))
       = str ''Error during execution: boom''
   \<and> map step_type (steps (fst (execute (str ''hi'') None run_boom (ag0, w0))))
       = [THOUGHT, ACTION, OBSERVATION, ERROR]"
  using execute_catches_errors [of run_boom "Exception (str ''boom'')" "(ag0, w0)" "str ''hi''" None]
  by (simp add: str_def run_boom_def tool_step_def)

section \<open>The artifact store\<close>

lemma map_of_dict_update:
  "distinct (map fst m) \<Longrightarrow> map_of (dict_update d m) = map_of d ++ map_of m"
proof (induction m arbitrary: d)
  case Nil
  then show ?case by (simp add: dict_update_def)
next
  case (Cons kv m)
  obtain k v where kv: "kv = (k, v)" by (cases kv)
  from Cons.prems kv have d: "distinct (map fst m)" and nk: "k \<notin> fst ` set m" by auto
  have "dict_update d (kv # m) = dict_update (AList.update k v d) m"
    by (simp add: dict_update_def kv)
  also have "map_of \<dots> = map_of (AList.update k v d) ++ map_of m"
    by (rule Cons.IH [OF d])
  also have "\<dots> = (map_of d)(k \<mapsto> v) ++ map_of m"
    by (simp add: update_conv')
  also have "\<dots> = (map_of d ++ map_of m)(k \<mapsto> v)"
  proof -
    from nk have "map_of m k = None" by (simp add: map_of_eq_None_iff)
    then show ?thesis by (auto simp: map_add_def fun_eq_iff split: option.splits)
  qed
  also have "\<dots> = map_of d ++ map_of (kv # m)"
    by (simp add: kv)
  finally show ?case .
qed

lemma map_fst_alist_update_present:
  "map_of al k = Some x \<Longrightarrow> map fst (AList.update k v al) = map fst al"
  by (induction al) (auto split: if_splits)

text \<open>
  C7. \<open>update\<close> on an identifier that is not in the store returns \<open>None\<close> and changes
  neither the store nor the environment. On an identifier that is present it returns
  the stored artifact with content and title replaced exactly when they are given and
  \<open>updated_at\<close> set to the current clock reading; every other field, the other
  artifacts and the order of the store are kept. The artifact's metadata dictionary is
  merged key by key: a key of the supplied dictionary takes the supplied value, every
  other key keeps its value. The supplied metadata is a dictionary, so its keys are
  distinct.
\<close>

theorem update_spec:
  assumes "\<forall>m. metadata = Some m \<longrightarrow> distinct (map fst m)"
  shows "(map_of (mgr_artifacts mgr) artifact_id = None \<longrightarrow>
            update artifact_id content title metadata (mgr, w) = (None, mgr, w))
       \<and> (\<forall>a. map_of (mgr_artifacts mgr) artifact_id = Some a \<longrightarrow>
            (\<exists>a' mgr' w'.
               update artifact_id content title metadata (mgr, w) = (Some a', mgr', w')
             \<and> get artifact_id mgr' = Some a'
             \<and> a' = a\<lparr>data_content := (case content of None \<Rightarrow> data_content a | Some c \<Rightarrow> c),
                       data_title := (case title of None \<Rightarrow> data_title a | Some t \<Rightarrow> t),
                       data_updated_at := clock w 0\<rparr>
             \<and> map_of (mgr_artifacts mgr') = (map_of (mgr_artifacts mgr))(artifact_id \<mapsto> a')
             \<and> map fst (mgr_artifacts mgr') = map fst (mgr_artifacts mgr)
             \<and> map_of (heap w' (data_metadata a)) =
                  (case metadata of
                     None \<Rightarrow> map_of (heap w (data_metadata a))
                   | Some m \<Rightarrow> map_of (heap w (data_metadata a)) ++ map_of m)
             \<and> (\<forall>p. p \<noteq> data_metadata a \<longrightarrow> heap w' p = heap w p)))"
proof (intro conjI allI impI)
  assume "map_of (mgr_artifacts mgr) artifact_id = None"
  then show "update artifact_id content title metadata (mgr, w) = (None, mgr, w)"
    by (simp add: update_def)
next
  fix a
  assume a: "map_of (mgr_artifacts mgr) artifact_id = Some a"
  from assms have md: "\<And>m. metadata = Some m \<Longrightarrow>
      map_of (dict_update (heap w (data_metadata a)) m) = map_of (heap w (data_metadata a)) ++ map_of m"
    by (simp add: map_of_dict_update)
  show "\<exists>a' mgr' w'.
               update artifact_id content title metadata (mgr, w) = (Some a', mgr', w')
             \<and> get artifact_id mgr' = Some a'
             \<and> a' = a\<lparr>data_content := (case content of None \<Rightarrow> data_content a | Some c \<Rightarrow> c),
                       data_title := (case title of None \<Rightarrow> data_title a | Some t \<Rightarrow> t),
                       data_updated_at := clock w 0\<rparr>
             \<and> map_of (mgr_artifacts mgr') = (map_of (mgr_artifacts mgr))(artifact_id \<mapsto> a')
             \<and> map fst (mgr_artifacts mgr') = map fst (mgr_artifacts mgr)
             \<and> map_of (heap w' (data_metadata a)) =
                  (case metadata of
                     None \<Rightarrow> map_of (heap w (data_metadata a))
                   | Some m \<Rightarrow> map_of (heap w (data_metadata a)) ++ map_of m)
             \<and> (\<forall>p. p \<noteq> data_metadata a \<longrightarrow> heap w' p = heap w p)"
    using a md
    by (cases content; cases title; cases metadata)
       (simp_all add: update_def get_def now_def Let_def update_conv'
          map_fst_alist_update_present)
qed


theorem update_spec_witness:
  "(\<exists>a' mgr' w'.
      update (str ''a1'') None (Some (str ''T'')) (Some [(str ''k'', PStr (str ''v''))]) (mgr1, w1)
        = (Some a', mgr', w')
      \<and> get (str ''a1'') mgr' = Some a'
      \<and> data_title a' = str ''T'' \<and> data_content a' = str ''c1''
      \<and> data_updated_at a' = 0
      \<and> map_of (heap w' 0) (str ''k0'') = Some (PInt 1)
      \<and> map_of (heap w' 0) (str ''k'') = Some (PStr (str ''v'')))
   \<and> update (str ''zz'') None (Some (str ''T'')) (Some [(str ''k'', PStr (str ''v''))]) (mgr1, w1)
       = (None, mgr1, w1)"
proof -
  have d: "\<forall>m. Some [(str ''k'', PStr (str ''v''))] = Some m \<longrightarrow> distinct (map fst m)"
    by auto
  have a: "map_of (mgr_artifacts mgr1) (str ''a1'') = Some art1"
    by (simp add: mgr1_def)
  have z: "map_of (mgr_artifacts mgr1) (str ''zz'') = None"
    by (simp add: mgr1_def str_def)
  from update_spec [OF d, of mgr1 "str ''a1''" None "Some (str ''T'')" w1] a
  obtain a' mgr' w' where
    u: "update (str ''a1'') None (Some (str ''T'')) (Some [(str ''k'', PStr (str ''v''))]) (mgr1, w1)
        = (Some a', mgr', w')"
    and g: "get (str ''a1'') mgr' = Some a'"
    and a': "a' = art1\<lparr>data_content := data_content art1, data_title := str ''T'',
                        data_updated_at := clock w1 0\<rparr>"
    and h: "map_of (heap w' (data_metadata art1)) =
              map_of (heap w1 (data_metadata art1)) ++ map_of [(str ''k'', PStr (str ''v''))]"
    by auto
  from a' have "data_title a' = str ''T''" "data_content a' = str ''c1''" "data_updated_at a' = 0"
    by (simp_all add: art1_def w1_def w0_def)
  moreover from h have "map_of (heap w' 0) (str ''k0'') = Some (PInt 1)"
    "map_of (heap w' 0) (str ''k'') = Some (PStr (str ''v''))"
    by (simp_all add: art1_def w1_def str_def)
  moreover from update_spec [OF d, of mgr1 "str ''zz''" None "Some (str ''T'')" w1] z
  have "update (str ''zz'') None (Some (str ''T'')) (Some [(str ''k'', PStr (str ''v''))]) (mgr1, w1)
       = (None, mgr1, w1)" by simp
  ultimately show ?thesis using u g by auto
qed

lemma sorted_reverse_mset: "mset (sorted_reverse key xs) = mset xs"
  by (simp add: sorted_reverse_def)

lemma sorted_reverse_descending: "sorted (rev (map key (sorted_reverse key xs)))"
  by (simp add: sorted_reverse_def rev_map [symmetric])

lemma sorted_reverse_stable:
  "filter (\<lambda>a. key a = t) (sorted_reverse key xs) = filter (\<lambda>a. key a = t) xs"
proof -
  have "filter (\<lambda>a. key a = t) (sort_key key (rev xs)) = filter (\<lambda>a. key a = t) (rev xs)"
    by (rule sort_key_stable)
  then show ?thesis
    by (simp add: sorted_reverse_def rev_filter [symmetric])
qed

text \<open>
  C8 (as amended). For a session identifier that is not the empty string,
  \<open>export_session\<close> returns a dictionary with exactly the keys \<open>session_id\<close>,
  \<open>artifact_count\<close>, \<open>artifacts\<close> and \<open>exported_at\<close>, in this order. The artifacts
  exported are those of the store whose \<open>session_id\<close> is the identifier, each once,
  in descending order of creation time, artifacts created at the same time in the
  order of the store; \<open>artifact_count\<close> is their number.
\<close>

theorem export_session_spec:
  assumes "sid \<noteq> []"
  shows "fst (export_session sid (mgr, w)) =
           [(str ''session_id'', EStr sid),
            (str ''artifact_count'',
               EInt (length (filter (\<lambda>a. data_session_id a = Some sid)
                                (map snd (mgr_artifacts mgr))))),
            (str ''artifacts'', EArtifacts (map data_to_dict (list_all_artifacts (Some sid) mgr))),
            (str ''exported_at'', ETime (Isoformat (clock w 0)))]
       \<and> mset (list_all_artifacts (Some sid) mgr) =
           mset (filter (\<lambda>a. data_session_id a = Some sid) (map snd (mgr_artifacts mgr)))
       \<and> sorted (rev (map data_created_at (list_all_artifacts (Some sid) mgr)))
       \<and> (\<forall>t. filter (\<lambda>a. data_created_at a = t) (list_all_artifacts (Some sid) mgr) =
                filter (\<lambda>a. data_created_at a = t)
                  (filter (\<lambda>a. data_session_id a = Some sid) (map snd (mgr_artifacts mgr))))"
proof -
  let ?xs = "filter (\<lambda>a. data_session_id a = Some sid) (map snd (mgr_artifacts mgr))"
  from assms have l: "list_all_artifacts (Some sid) mgr = sorted_reverse data_created_at ?xs"
    by (simp add: list_all_artifacts_def)
  have "length (sorted_reverse data_created_at ?xs) = length ?xs"
    by (simp add: sorted_reverse_def)
  with l show ?thesis
    by (simp add: export_session_def now_def sorted_reverse_mset sorted_reverse_descending
          sorted_reverse_stable del: mset_filter mset_map)
qed

theorem export_session_spec_witness:
  "fst (export_session (str ''s1'') (mgr1, w1)) =
     [(str ''session_id'', EStr (str ''s1'')),
      (str ''artifact_count'', EInt 2),
      (str ''artifacts'', EArtifacts [data_to_dict art3, data_to_dict art1]),
      (str ''exported_at'', ETime (Isoformat 0))]"
proof -
  have n: "str ''s1'' \<noteq> []" by (simp add: str_def)
  have s2: "str ''s2'' \<noteq> str ''s1''" by (simp add: str_def)
  have f: "filter (\<lambda>a. data_session_id a = Some (str ''s1'')) (map snd (mgr_artifacts mgr1))
             = [art1, art3]"
    using s2 by (simp add: mgr1_def art1_def art2_def art3_def)
  have "list_all_artifacts (Some (str ''s1'')) mgr1 = [art3, art1]"
    using n f by (simp add: list_all_artifacts_def sorted_reverse_def art1_def art3_def)
  with export_session_spec [OF n, of mgr1 w1] f show ?thesis
    by (simp add: w1_def w0_def)
qed

theorem export_session_empty_id_counterexample:
  "map_of (fst (export_session [] (mgr1, w1))) (str ''artifact_count'') = Some (EInt 3)
   \<and> length (filter (\<lambda>a. data_session_id a = Some []) (map snd (mgr_artifacts mgr1))) = 0
   \<and> map_of (fst (export_session [] (mgr1, w1))) (str ''count'') = None"
proof -
  have "length (list_all_artifacts (Some []) mgr1) = 3"
    by (simp add: list_all_artifacts_def sorted_reverse_def mgr1_def)
  then have "map_of (fst (export_session [] (mgr1, w1))) (str ''artifact_count'') = Some (EInt 3)"
    by (simp add: export_session_def now_def str_def)
  moreover have "length (filter (\<lambda>a. data_session_id a = Some []) (map snd (mgr_artifacts mgr1))) = 0"
    by (simp add: mgr1_def art1_def art2_def art3_def str_def)
  moreover have "map_of (fst (export_session [] (mgr1, w1))) (str ''count'') = None"
    by (simp add: export_session_def now_def str_def Let_def split: prod.splits)
  ultimately show ?thesis by simp
qed

section \<open>The chat endpoint\<close>

text \<open>
  C10. A request whose \<open>content\<close> is empty or longer than 10000 characters is answered
  with a validation error, whatever the model would do; the handler and the execution
  loop are not run, so sessions, agent and environment are as before. A content of 1
  to 10000 characters is passed to the handler.
\<close>

theorem post_chat_validates_length:
  "(length (chat_content body) = 0 \<or> 10000 < length (chat_content body) \<longrightarrow>
      post_chat body run a = (Inl RequestValidationError, a))
   \<and> (1 \<le> length (chat_content body) \<and> length (chat_content body) \<le> 10000 \<longrightarrow>
      post_chat body run a = (Inr (fst (chat body run a)), snd (chat body run a)))"
  by (simp add: post_chat_def validate_chat_message_def content_min_length_def
        content_max_length_def split: prod.splits)

theorem post_chat_validates_length_witness:
  "post_chat \<lparr>chat_content = [], msg_session_id = None, msg_context = None\<rparr> run_done app0
     = (Inl RequestValidationError, app0)
   \<and> post_chat \<lparr>chat_content = replicate 10001 97, msg_session_id = None, msg_context = None\<rparr>
        run_done app0
     = (Inl RequestValidationError, app0)
   \<and> post_chat \<lparr>chat_content = replicate 10000 97, msg_session_id = None, msg_context = None\<rparr>
        run_done app0
     = (Inr (fst (chat \<lparr>chat_content = replicate 10000 97, msg_session_id = None,
                        msg_context = None\<rparr> run_done app0)),
        snd (chat \<lparr>chat_content = replicate 10000 97, msg_session_id = None,
                    msg_context = None\<rparr> run_done app0))"
  using post_chat_validates_length
          [of "\<lparr>chat_content = [], msg_session_id = None, msg_context = None\<rparr>" run_done app0]
        post_chat_validates_length
          [of "\<lparr>chat_content = replicate 10001 97, msg_session_id = None, msg_context = None\<rparr>"
              run_done app0]
        post_chat_validates_length
          [of "\<lparr>chat_content = replicate 10000 97, msg_session_id = None, msg_context = None\<rparr>"
              run_done app0]
  by simp

section \<open>The session registry\<close>

lemma on_session_apply:
  "on_session sid f ss sid' = (if sid' = sid then map_option f (ss sid) else ss sid')"
  by (simp add: on_session_def split: option.splits)

lemma store_artifacts_apply:
  "store_artifacts sid arts ss sid' =
     (if sid' = sid
      then map_option (\<lambda>s. s\<lparr>sess_artifacts := sess_artifacts s @ map to_dict arts\<rparr>) (ss sid)
      else ss sid')"
proof (induction arts arbitrary: ss)
  case Nil
  then show ?case by (cases "ss sid") (simp_all add: store_artifacts_def)
next
  case (Cons x xs)
  have "store_artifacts sid (x # xs) ss =
          store_artifacts sid xs
            (on_session sid (\<lambda>s. s\<lparr>sess_artifacts := sess_artifacts s @ [to_dict x]\<rparr>) ss)"
    by (simp add: store_artifacts_def)
  then show ?case
    by (cases "ss sid") (simp_all add: Cons.IH on_session_apply)
qed

lemma init_session_apply:
  "fst (init_session sid (ss, w)) sid' =
     (if sid' = sid \<and> ss sid = None
      then Some \<lparr>sess_id = sid, sess_created_at = Isoformat (clock w 0), messages = [],
                 sess_artifacts = [], last_activity = None\<rparr>
      else ss sid')"
  by (simp add: init_session_def now_def split: option.splits)

lemma init_session_idempotent:
  "init_session sid (fst (init_session sid (ss, w)), w') = (fst (init_session sid (ss, w)), w')"
  by (simp add: init_session_def now_def split: option.splits)

lemma add_message_apply:
  "fst (add_message sid r c (ss, w)) sid' =
     (if sid' = sid
      then map_option (\<lambda>s. s\<lparr>messages := messages s
              @ [\<lparr>role = r, msg_content = c, msg_timestamp = Isoformat (clock w 0)\<rparr>]\<rparr>) (ss sid)
      else ss sid')"
  by (simp add: add_message_def now_def on_session_apply)

lemma chat_session:
  assumes "msg_session_id msg = Some sid" "sid \<noteq> []"
  shows "\<exists>s' u r arts.
           sessions (snd (chat msg run a)) sid = Some s'
         \<and> sess_created_at s' =
             (case sessions a sid of None \<Rightarrow> Isoformat (clock (env a) 0)
              | Some s \<Rightarrow> sess_created_at s)
         \<and> messages s' = (case sessions a sid of None \<Rightarrow> [] | Some s \<Rightarrow> messages s) @ [u, r]
         \<and> role u = str ''user'' \<and> msg_content u = chat_content msg
         \<and> role r = str ''assistant''
         \<and> sess_artifacts s' =
             (case sessions a sid of None \<Rightarrow> [] | Some s \<Rightarrow> sess_artifacts s) @ arts"
  using assms
  by (cases "sessions a sid")
     (auto simp: chat_def resolve_session_id_def Let_def on_session_apply store_artifacts_apply
        add_message_def init_session_def now_def split: prod.splits)


text \<open>
  C6. Initialising a session that exists changes nothing: neither the registry nor the
  clock. So for two turns that name the same session identifier (a string that is not
  empty; an empty \<open>session_id\<close> is a request without one), the record after the second
  turn has the \<open>created_at\<close> it had after the first, which is the clock reading of its
  creation if the first turn created it, and its message and artifact histories are
  those after the first turn, extended by the second turn's two messages and artifacts.
\<close>

theorem chat_same_session_keeps_created_at:
  assumes "msg_session_id m1 = Some sid" "msg_session_id m2 = Some sid" "sid \<noteq> []"
  shows "init_session sid (fst (init_session sid (ss, w)), w') = (fst (init_session sid (ss, w)), w')
       \<and> (\<exists>s1 s2 u r arts.
             sessions (snd (chat m1 run1 a)) sid = Some s1
           \<and> sessions (snd (chat m2 run2 (snd (chat m1 run1 a)))) sid = Some s2
           \<and> sess_created_at s2 = sess_created_at s1
           \<and> (sessions a sid = None \<longrightarrow> sess_created_at s1 = Isoformat (clock (env a) 0))
           \<and> messages s2 = messages s1 @ [u, r]
           \<and> sess_artifacts s2 = sess_artifacts s1 @ arts)"
proof
  show "init_session sid (fst (init_session sid (ss, w)), w') = (fst (init_session sid (ss, w)), w')"
    by (rule init_session_idempotent)
  from chat_session [OF assms(1) assms(3), of run1 a]
  obtain s1 where s1: "sessions (snd (chat m1 run1 a)) sid = Some s1"
    and c1: "sess_created_at s1 =
             (case sessions a sid of None \<Rightarrow> Isoformat (clock (env a) 0)
              | Some s \<Rightarrow> sess_created_at s)"
    by blast
  from chat_session [OF assms(2) assms(3), of run2 "snd (chat m1 run1 a)"] s1
  obtain s2 u r arts where
    "sessions (snd (chat m2 run2 (snd (chat m1 run1 a)))) sid = Some s2"
    "sess_created_at s2 = sess_created_at s1"
    "messages s2 = messages s1 @ [u, r]"
    "sess_artifacts s2 = sess_artifacts s1 @ arts"
    by auto
  with s1 c1 show "\<exists>s1 s2 u r arts.
             sessions (snd (chat m1 run1 a)) sid = Some s1
           \<and> sessions (snd (chat m2 run2 (snd (chat m1 run1 a)))) sid = Some s2
           \<and> sess_created_at s2 = sess_created_at s1
           \<and> (sessions a sid = None \<longrightarrow> sess_created_at s1 = Isoformat (clock (env a) 0))
           \<and> messages s2 = messages s1 @ [u, r]
           \<and> sess_artifacts s2 = sess_artifacts s1 @ arts"
    by auto
qed

theorem chat_same_session_keeps_created_at_witness:
  "\<exists>s1 s2. sessions (snd (chat msg_hi run_done app0)) (str ''s1'') = Some s1
         \<and> sessions (snd (chat msg_hi run_boom (snd (chat msg_hi run_done app0)))) (str ''s1'')
             = Some s2
         \<and> sess_created_at s1 = Isoformat 0 \<and> sess_created_at s2 = Isoformat 0
         \<and> length (messages s2) = length (messages s1) + 2"
proof -
  have n: "str ''s1'' \<noteq> []" by (simp add: str_def)
  have m: "msg_session_id msg_hi = Some (str ''s1'')" by (simp add: msg_hi_def)
  have e: "sessions app0 (str ''s1'') = None" "clock (env app0) 0 = 0"
    by (simp_all add: app0_def w0_def)
  from chat_same_session_keeps_created_at [OF m m n, where a = app0 and ?run1.0 = run_done and ?run2.0 = run_boom
          and ss = "sessions app0" and w = w0 and w' = w0] e
  show ?thesis by auto
qed

section \<open>Snapshots of artifacts in a session\<close>

lemma findall_one:
  \<open>findall (str ''<artifact type="a">b</artifact>'') = [(str ''a'', [], [], str ''b'')]\<close>
  by (simp add: findall.simps match_at_def artifact_pattern_def attr_def str_def quote_def
        isspace_def groups_of_def grp_def)

lemma sub_one:
  \<open>sub placeholder (str ''<artifact type="a">b</artifact>'') = placeholder\<close>
  by (simp add: sub.simps match_at_def artifact_pattern_def attr_def str_def quote_def
        isspace_def)






section \<open>The streaming adapter\<close>

lemma stream_loop_result:
  "fst (stream_loop xs rc ag evs) =
     (case stream_error xs of None \<Rightarrow> Inr (rc @ concat (yielded xs)) | Some e \<Rightarrow> Inl e)"
  by (induction xs rc ag evs rule: stream_loop.induct) (simp_all split: option.splits)

lemma stream_loop_events:
  "snd (snd (stream_loop xs rc ag evs)) = evs @ map TokenEv (yielded xs)"
  by (induction xs rc ag evs rule: stream_loop.induct) (simp_all split: option.splits)

lemma stream_loop_artifacts:
  "artifacts (fst (snd (stream_loop xs rc ag evs))) = artifacts ag @ added_artifacts xs"
  by (induction xs rc ag evs rule: stream_loop.induct) (simp_all split: option.splits)

lemma precede_cut:
  assumes "evs = xs @ ys" "\<forall>x \<in> set xs. \<not> Q x" "\<forall>y \<in> set ys. \<not> P y"
  shows "precede P Q evs"
  unfolding precede_def
proof (intro allI impI)
  fix i j
  assume i: "i < length evs" and j: "j < length evs" and pq: "P (evs ! i) \<and> Q (evs ! j)"
  have "i < length xs"
  proof (rule ccontr)
    assume "\<not> i < length xs"
    with i assms(1) have "evs ! i \<in> set ys" by (simp add: nth_append)
    with assms(3) pq show False by blast
  qed
  moreover have "\<not> j < length xs"
  proof
    assume "j < length xs"
    with assms(1) have "evs ! j \<in> set xs" by (simp add: nth_append)
    with assms(2) pq show False by blast
  qed
  ultimately show "i < j" by simp
qed

lemma extract_loop_artifacts:
  "map art_type (artifacts (fst (extract_loop ms (ag, w)))) =
     map art_type (artifacts ag) @ map fst ms"
proof (induction ms arbitrary: ag w)
  case Nil
  then show ?case by simp
next
  case (Cons m ms)
  obtain ty l ti c where m: "m = (ty, l, ti, c)" by (cases m)
  show ?case
    by (simp add: Cons.IH m artifact_of_match_def new_artifact_def Let_def split: prod.splits)
qed


lemma stream_loop_cases:
  assumes "stream_loop xs rc ag evs = (r, ag', evs')"
  shows "r = (case stream_error xs of None \<Rightarrow> Inr (rc @ concat (yielded xs)) | Some e \<Rightarrow> Inl e)"
    and "evs' = evs @ map TokenEv (yielded xs)"
    and "artifacts ag' = artifacts ag @ added_artifacts xs"
  using stream_loop_result [of xs rc ag evs] stream_loop_events [of xs rc ag evs]
    stream_loop_artifacts [of xs rc ag evs] assms
  by simp_all

lemma stream_execute_shape:
  "\<exists>start thought.
     (\<exists>s t. start = StartEv s t)
   \<and> (\<exists>d. thought = StepEv d \<and> sd_type d = step_type_value THOUGHT)
   \<and> (case stream_error stream of
        None \<Rightarrow>
          (\<exists>final complete.
             fst (stream_execute um sid stream st) =
               [start, thought] @ map TokenEv (yielded stream)
                 @ map (\<lambda>a. ArtifactEv (to_dict a))
                     (artifacts (fst (snd (stream_execute um sid stream st))))
                 @ [StepEv final, complete]
           \<and> sd_type final = step_type_value FINAL_ANSWER
           \<and> sd_content final = sub placeholder (concat (yielded stream))
           \<and> (\<exists>s n. complete = CompleteEv s True n)
           \<and> map art_type (artifacts (fst (snd (stream_execute um sid stream st)))) =
               map art_type (added_artifacts stream) @ map fst (findall (concat (yielded stream))))
      | Some e \<Rightarrow>
          fst (stream_execute um sid stream st) =
            [start, thought] @ map TokenEv (yielded stream) @ [ErrorEv (exn_str e)])"
proof -
  obtain ag w where st: "st = (ag, w)" by (cases st)
  obtain start_time w1 where n1: "now w = (start_time, w1)" by (cases "now w")
  obtain cur w2 where r: "resolve_session_id sid w1 = (cur, w2)"
    by (cases "resolve_session_id sid w1")
  obtain t w3 where n2: "now w2 = (t, w3)" by (cases "now w2")
  obtain thought_step w4 where
    th: "new_step THOUGHT (str ''Analyzing request: '' @ um) w3 = (thought_step, w4)"
    by (cases "new_step THOUGHT (str ''Analyzing request: '' @ um) w3")
  let ?ag2 = "ag\<lparr>current_session_id := Some cur, artifacts := [], execution_steps := [thought_step]\<rparr>"
  let ?evs = "[StartEv cur (Isoformat t), StepEv (step_to_dict thought_step)]"
  obtain res ag3 evs1 where sl: "stream_loop stream [] ?ag2 ?evs = (res, ag3, evs1)"
    by (cases "stream_loop stream [] ?ag2 ?evs")
  note c = stream_loop_cases [OF sl]
  from th have tt: "sd_type (step_to_dict thought_step) = step_type_value THOUGHT"
    using new_step_fields(1) [of THOUGHT "str ''Analyzing request: '' @ um" w3]
    by (simp add: step_to_dict_def)
  show ?thesis
  proof (cases "stream_error stream")
    case (Some e)
    with c have "res = Inl e" by simp
    with st n1 r n2 th sl c(2)
    have "fst (stream_execute um sid stream st) =
            ?evs @ map TokenEv (yielded stream) @ [ErrorEv (exn_str e)]"
      by (simp add: stream_execute_def Let_def)
    with Some tt show ?thesis by auto
  next
    case None
    with c have res: "res = Inr (concat (yielded stream))" by simp
    let ?raw = "concat (yielded stream)"
    obtain ag4 w5 where ex: "extract_loop (findall ?raw) (ag3, w4) = (ag4, w5)"
      by (cases "extract_loop (findall ?raw) (ag3, w4)")
    obtain final_step w6 where
      fs: "new_step FINAL_ANSWER (sub placeholder ?raw) w5 = (final_step, w6)"
      by (cases "new_step FINAL_ANSWER (sub placeholder ?raw) w5")
    obtain end_time w7 where n3: "now w6 = (end_time, w7)" by (cases "now w6")
    from fs have ft: "sd_type (step_to_dict final_step) = step_type_value FINAL_ANSWER"
      "sd_content (step_to_dict final_step) = sub placeholder ?raw"
      using new_step_fields [of FINAL_ANSWER "sub placeholder ?raw" w5]
      by (simp_all add: step_to_dict_def)
    from ex have "map art_type (artifacts ag4) = map art_type (artifacts ag3) @ map fst (findall ?raw)"
      using extract_loop_artifacts [of "findall ?raw" ag3 w4] by simp
    with c(3) have ar: "map art_type (artifacts ag4) =
        map art_type (added_artifacts stream) @ map fst (findall ?raw)" by simp
    from None st n1 r n2 th sl c(2) res ex fs n3
    have "fst (stream_execute um sid stream st) =
            ?evs @ map TokenEv (yielded stream) @ map (\<lambda>a. ArtifactEv (to_dict a)) (artifacts ag4)
              @ [StepEv (step_to_dict final_step),
                 CompleteEv cur True (elapsed_ms w7 start_time end_time)]"
      and "artifacts (fst (snd (stream_execute um sid stream st))) = artifacts ag4"
      by (simp_all add: stream_execute_def process_response_def Let_def)
    with None ft ar tt show ?thesis by auto
  qed
qed


lemma precede_none_left: "\<forall>x \<in> set evs. \<not> P x \<Longrightarrow> precede P Q evs"
  using precede_cut [of evs "[]" evs Q P] by simp

lemma precede_none_right: "\<forall>x \<in> set evs. \<not> Q x \<Longrightarrow> precede P Q evs"
  using precede_cut [of evs evs "[]" Q P] by simp

lemma thought_not_final: "step_type_value THOUGHT \<noteq> step_type_value FINAL_ANSWER"
  by (simp add: str_def)

text \<open>
  C4. The events of one streamed turn, consumed to the end. They begin with the start
  event and the THOUGHT step. If the streamed run does not raise, there follow one token
  event for each chunk content passed on, in order, then one artifact event for each
  artifact of the turn, then the FINAL\_ANSWER step and the complete event; the
  artifacts are those the run added and those extracted from the concatenation of the
  token contents, and the final step's content is the cleaned text of that
  concatenation. If the run raises, the token events emitted so far are followed by one
  error event with the error text, and nothing else. In both cases every token event
  comes before every artifact event, and every artifact event and every token event
  before the FINAL\_ANSWER step and the complete event.
\<close>

theorem stream_execute_event_order:
  "\<exists>start thought.
     (\<exists>s t. start = StartEv s t)
   \<and> (\<exists>d. thought = StepEv d \<and> sd_type d = step_type_value THOUGHT)
   \<and> (case stream_error stream of
        None \<Rightarrow>
          (\<exists>final complete.
             fst (stream_execute um sid stream st) =
               [start, thought] @ map TokenEv (yielded stream)
                 @ map (\<lambda>a. ArtifactEv (to_dict a))
                     (artifacts (fst (snd (stream_execute um sid stream st))))
                 @ [StepEv final, complete]
           \<and> sd_type final = step_type_value FINAL_ANSWER
           \<and> sd_content final = sub placeholder (concat (yielded stream))
           \<and> (\<exists>s n. complete = CompleteEv s True n)
           \<and> map art_type (artifacts (fst (snd (stream_execute um sid stream st)))) =
               map art_type (added_artifacts stream) @ map fst (findall (concat (yielded stream))))
      | Some e \<Rightarrow>
          fst (stream_execute um sid stream st) =
            [start, thought] @ map TokenEv (yielded stream) @ [ErrorEv (exn_str e)])
   \<and> precede is_token is_artifact (fst (stream_execute um sid stream st))
   \<and> precede is_artifact is_final (fst (stream_execute um sid stream st))
   \<and> precede is_token is_final (fst (stream_execute um sid stream st))"
proof -
  let ?evs = "fst (stream_execute um sid stream st)"
  let ?arts = "map (\<lambda>a. ArtifactEv (to_dict a)) (artifacts (fst (snd (stream_execute um sid stream st))))"
  from stream_execute_shape [where stream = stream and um = um and sid = sid and st = st]
  obtain start thought where
    s: "\<exists>s t. start = StartEv s t"
    and t: "\<exists>d. thought = StepEv d \<and> sd_type d = step_type_value THOUGHT"
    and sh: "case stream_error stream of
        None \<Rightarrow>
          (\<exists>final complete.
             ?evs = [start, thought] @ map TokenEv (yielded stream) @ ?arts @ [StepEv final, complete]
           \<and> sd_type final = step_type_value FINAL_ANSWER
           \<and> sd_content final = sub placeholder (concat (yielded stream))
           \<and> (\<exists>s n. complete = CompleteEv s True n)
           \<and> map art_type (artifacts (fst (snd (stream_execute um sid stream st)))) =
               map art_type (added_artifacts stream) @ map fst (findall (concat (yielded stream))))
      | Some e \<Rightarrow> ?evs = [start, thought] @ map TokenEv (yielded stream) @ [ErrorEv (exn_str e)]"
    by blast
  from t thought_not_final have nf: "\<not> is_final thought" by auto
  from s t have ns: "\<not> is_token start" "\<not> is_artifact start" "\<not> is_final start"
    "\<not> is_token thought" "\<not> is_artifact thought" by auto
  have "precede is_token is_artifact ?evs \<and> precede is_artifact is_final ?evs
        \<and> precede is_token is_final ?evs"
  proof (cases "stream_error stream")
    case (Some e)
    with sh have e: "?evs = [start, thought] @ map TokenEv (yielded stream) @ [ErrorEv (exn_str e)]"
      by simp
    have "\<forall>x \<in> set ?evs. \<not> is_artifact x" "\<forall>x \<in> set ?evs. \<not> is_final x"
      unfolding e using ns nf by auto
    then show ?thesis
      by (simp add: precede_none_left precede_none_right)
  next
    case None
    with sh obtain final complete where
      e: "?evs = [start, thought] @ map TokenEv (yielded stream) @ ?arts @ [StepEv final, complete]"
      and c: "\<exists>s n. complete = CompleteEv s True n"
      by auto
    from c have nc: "\<not> is_token complete" "\<not> is_artifact complete" by auto
    have "precede is_token is_artifact ?evs"
      by (rule precede_cut [where xs = "[start, thought] @ map TokenEv (yielded stream)"
                              and ys = "?arts @ [StepEv final, complete]"])
         (use e ns nc in auto)
    moreover have "precede is_artifact is_final ?evs"
      by (rule precede_cut [where xs = "[start, thought] @ map TokenEv (yielded stream) @ ?arts"
                              and ys = "[StepEv final, complete]"])
         (use e ns nf nc in auto)
    moreover have "precede is_token is_final ?evs"
      by (rule precede_cut [where xs = "[start, thought] @ map TokenEv (yielded stream) @ ?arts"
                              and ys = "[StepEv final, complete]"])
         (use e ns nf nc in auto)
    ultimately show ?thesis by simp
  qed
  with s t sh show ?thesis by blast
qed

lemma stream1_yielded:
  \<open>yielded stream1 = [str ''<artifact type="a"'', str ''>b</artifact>'']\<close>
  \<open>concat (yielded stream1) = str ''<artifact type="a">b</artifact>''\<close>
  \<open>stream_error stream1 = None\<close> \<open>added_artifacts stream1 = []\<close>
  by (simp_all add: stream1_def str_def)

theorem stream_execute_event_order_witness:
  \<open>\<exists>start thought art final complete.
     fst (stream_execute (str ''hi'') None stream1 (ag0, w0)) =
       [start, thought, TokenEv (str ''<artifact type="a"''), TokenEv (str ''>b</artifact>''),
        ArtifactEv art, StepEv final, complete]
   \<and> dict_type art = str ''a'' \<and> sd_content final = placeholder
   \<and> precede is_token is_artifact (fst (stream_execute (str ''hi'') None stream1 (ag0, w0)))\<close>
proof -
  let ?r = "stream_execute (str ''hi'') None stream1 (ag0, w0)"
  from stream_execute_event_order
         [where stream = stream1 and um = "str ''hi''" and sid = None and st = "(ag0, w0)"]
  obtain start thought final complete where
    e: "fst ?r = [start, thought] @ map TokenEv (yielded stream1)
          @ map (\<lambda>a. ArtifactEv (to_dict a)) (artifacts (fst (snd ?r))) @ [StepEv final, complete]"
    and f: "sd_content final = sub placeholder (concat (yielded stream1))"
    and a: "map art_type (artifacts (fst (snd ?r))) =
              map art_type (added_artifacts stream1) @ map fst (findall (concat (yielded stream1)))"
    and p: "precede is_token is_artifact (fst ?r)"
    by (auto simp: stream1_yielded(3))
  from a have "map art_type (artifacts (fst (snd ?r))) = [str ''a'']"
    by (simp add: stream1_yielded(2) stream1_yielded(4) findall_one)
  then obtain x where x: "artifacts (fst (snd ?r)) = [x]" "art_type x = str ''a''"
    by auto
  from f have "sd_content final = placeholder"
    by (simp add: stream1_yielded(2) sub_one)
  with e x p show ?thesis
    by (simp add: stream1_yielded(1) to_dict_def)
qed

end
